theory Spec2Isabelle
  imports Main "HOL-Library.Sublist"
begin

section \<open>The scan client of \<^verbatim>\<open>src/Xray/XrayScanClient.ts\<close>\<close>

text \<open>
  The class \<^verbatim>\<open>XrayScanClient\<close> has two methods: \<^verbatim>\<open>graph\<close> sends one POST and hands
  over to \<^verbatim>\<open>getScanGraphResults\<close>, which polls with GET until a terminal outcome.
  Both are asynchronous, and sequential: every call is awaited before the next
  statement runs. The model is a pure function from what the collaborators answer to
  the value the call settles with, together with the trace of the calls it made, in the
  order it made them.

  The collaborators are not part of the file (the HTTP client, the progress object, the
  cancellation callback, the logger). The first three are parameters of the model, given
  as scripts indexed by the number of the call. A logger call, a call of
  \<^verbatim>\<open>setPercentage\<close> and the timer of \<^verbatim>\<open>delay\<close> are taken to return normally; the logger
  calls are left out of the trace.
\<close>

subsection \<open>Data\<close>

datatype http_method = GET | POST

text \<open>
  \<^verbatim>\<open>IRequestParams\<close>. The type of the request body is a parameter (the interface
  \<^verbatim>\<open>IGraphRequestModel\<close> is declared elsewhere). The field \<^verbatim>\<open>method\<close> is \<open>httpMethod\<close>
  here, the source's name being a keyword of the prover.
\<close>

record 'q IRequestParams =
  url :: string
  httpMethod :: http_method
  data :: "'q option"
  validateStatus :: "(nat \<Rightarrow> bool) option"

text \<open>
  \<^verbatim>\<open>IGraphResponse\<close>: the two fields the client reads, both possibly missing, and the
  remaining fields as a list of pairs. The object \<^verbatim>\<open>{}\<close> has no field at all.
\<close>

record 'v IGraphResponse =
  scan_id :: "string option"
  progress_percentage :: "nat option"
  other_fields :: "(string \<times> 'v) list"

definition emptyResponse :: "'v IGraphResponse" where
  "emptyResponse = \<lparr>scan_id = None, progress_percentage = None, other_fields = []\<rparr>"

text \<open>
  The reason a request promise is rejected with (\<^verbatim>\<open>reason: any\<close>). The handler reads
  \<^verbatim>\<open>reason.response?.status\<close> and \<^verbatim>\<open>reason?.message\<close>: a reason that is \<^verbatim>\<open>null\<close> or
  \<^verbatim>\<open>undefined\<close> makes the first read fail, any object gives a status or
  \<^verbatim>\<open>undefined\<close>, and a message or \<^verbatim>\<open>undefined\<close>.
\<close>

datatype reason = NullReason | Reason "nat option" "string option"

text \<open>
  How a request promise settles. A resolved promise carries a response object, as the
  declared type \<^verbatim>\<open>IGraphResponse\<close> says.
\<close>

datatype 'v settled = Resolved "'v IGraphResponse" | Rejected reason

text \<open>
  What the HTTP client does with one GET: the status it last passed to the
  \<^verbatim>\<open>validateStatus\<close> callback (if it called it), and how the promise settles.
\<close>

record 'v outcome =
  validated :: "nat option"
  settled :: "'v settled"

text \<open>The calls on the collaborators, and the timed suspension.\<close>

datatype 'q event =
    CheckCanceled
  | Request "'q IRequestParams"
  | SetPercentage nat
  | Delay nat

text \<open>
  What a call can be rejected with: the value \<^verbatim>\<open>checkCanceled\<close> threw, as it is; the
  rejection reason of the POST, as it is; an \<^verbatim>\<open>Error\<close> with its message; the
  \<^verbatim>\<open>TypeError\<close> of reading a property of \<^verbatim>\<open>undefined\<close> or \<^verbatim>\<open>null\<close>, with the name
  of the property.
\<close>

datatype 'e thrown =
    Raised 'e
  | Rejection reason
  | Error string
  | TypeError string

subsection \<open>Constants\<close>

definition scanGraphEndpoint :: string where
  "scanGraphEndpoint = ''api/v1/scan/graph''"

definition SLEEP_INTERVAL_MILLISECONDS :: nat where
  "SLEEP_INTERVAL_MILLISECONDS = 5000"

definition MAX_ATTEMPTS :: nat where
  "MAX_ATTEMPTS = 60"

subsection \<open>Template strings and truthiness\<close>

definition digit_char :: "nat \<Rightarrow> char" where
  "digit_char d = char_of (48 + d)"

fun string_of_nat :: "nat \<Rightarrow> string" where
  "string_of_nat n =
     (if n < 10 then [digit_char n]
      else string_of_nat (n div 10) @ [digit_char (n mod 10)])"

declare string_of_nat.simps [simp del]

text \<open>A value interpolated in a template string; \<^verbatim>\<open>undefined\<close> prints as its name.\<close>

definition template_string :: "string option \<Rightarrow> string" where
  "template_string s = (case s of None \<Rightarrow> ''undefined'' | Some t \<Rightarrow> t)"

definition template_number :: "nat option \<Rightarrow> string" where
  "template_number x = (case x of None \<Rightarrow> ''undefined'' | Some n \<Rightarrow> string_of_nat n)"

definition template_bool :: "bool \<Rightarrow> string" where
  "template_bool b = (if b then ''true'' else ''false'')"

text \<open>\<^verbatim>\<open>if (x)\<close> on a number that may be \<^verbatim>\<open>undefined\<close>: zero is falsy too.\<close>

definition truthy :: "nat option \<Rightarrow> bool" where
  "truthy x = (case x of None \<Rightarrow> False | Some n \<Rightarrow> n \<noteq> 0)"

subsection \<open>One GET\<close>

text \<open>The predicate passed as \<^verbatim>\<open>validateStatus\<close> (its result; its effect is below).\<close>

definition acceptStatus :: "nat \<Rightarrow> bool" where
  "acceptStatus status = (status = 200 \<or> status = 202)"

text \<open>
  Lines 77 to 92: \<^verbatim>\<open>receivedStatus\<close>, \<^verbatim>\<open>message\<close> and \<^verbatim>\<open>response\<close> after the await.
  The callback stores the status it is given; the rejection handler overwrites it with
  the status of the reason, stores the message and returns nothing, so that
  \<^verbatim>\<open>response\<close> is \<^verbatim>\<open>undefined\<close> (\<open>None\<close>) then. \<open>Inl p\<close>: the handler failed with
  a \<^verbatim>\<open>TypeError\<close>, reading the property \<open>p\<close>.
\<close>

definition doPoll ::
  "'v outcome \<Rightarrow> string + (nat option \<times> string option \<times> 'v IGraphResponse option)" where
  "doPoll out =
     (case settled out of
        Resolved r \<Rightarrow> Inr (validated out, None, Some r)
      | Rejected NullReason \<Rightarrow> Inl ''response''
      | Rejected (Reason status msg) \<Rightarrow> Inr (status, msg, None))"

definition pollRequest :: "string \<Rightarrow> 'q IRequestParams" where
  "pollRequest scanGraphUrl =
     \<lparr>url = scanGraphUrl, httpMethod = GET, data = None, validateStatus = Some acceptStatus\<rparr>"

subsection \<open>The polling loop\<close>

text \<open>
  The \<^verbatim>\<open>for\<close> loop of \<^verbatim>\<open>getScanGraphResults\<close>, from the value \<open>i\<close> of its counter, with
  the trace so far. \<open>checkCanceled i\<close> is what the callback does at the call of
  iteration \<open>i\<close> (\<open>Some e\<close>: it throws \<open>e\<close>), \<open>http i\<close> what the client does with the
  GET of iteration \<open>i\<close>.
\<close>

function getScanGraphResults_loop ::
  "string \<Rightarrow> (nat \<Rightarrow> 'e option) \<Rightarrow> (nat \<Rightarrow> 'v outcome) \<Rightarrow> nat \<Rightarrow> nat \<Rightarrow> 'q event list
     \<Rightarrow> ('e thrown + 'v IGraphResponse option) \<times> 'q event list" where
  "getScanGraphResults_loop scanGraphUrl checkCanceled http ms i tr =
     (if i < MAX_ATTEMPTS then
        (case checkCanceled i of
           Some e \<Rightarrow> (Inl (Raised e), tr @ [CheckCanceled])
         | None \<Rightarrow>
             (let tr1 = tr @ [CheckCanceled, Request (pollRequest scanGraphUrl)] in
              case doPoll (http i) of
                Inl property \<Rightarrow> (Inl (TypeError property), tr1)
              | Inr (receivedStatus, message, response) \<Rightarrow>
                  if receivedStatus = Some 200 then (Inr response, tr1)
                  else if receivedStatus = Some 202 then
                    (case response of
                       None \<Rightarrow> (Inl (TypeError ''progress_percentage''), tr1)
                     | Some r \<Rightarrow>
                         (let tr2 =
                            (case progress_percentage r of
                               None \<Rightarrow> tr1
                             | Some p \<Rightarrow> if p \<noteq> 0 then tr1 @ [SetPercentage p] else tr1)
                          in getScanGraphResults_loop scanGraphUrl checkCanceled http ms
                               (Suc i) (tr2 @ [Delay ms])))
                  else if truthy receivedStatus then
                    (Inl (Error (''Received unexpected status '' @ [CHR 0x27]
                            @ template_number receivedStatus
                            @ [CHR 0x27] @ '' from Xray: '' @ template_string message)), tr1)
                  else
                    (Inl (Error (''Received response from Xray: '' @ template_string message)),
                     tr1)))
      else (Inl (Error ''Xray get scan graph exceeded the timeout.''), tr))"
  by pat_completeness auto
termination
  by (relation "measure (\<lambda>(u, c, h, ms, i, tr). MAX_ATTEMPTS - i)") auto

declare getScanGraphResults_loop.simps [simp del]

text \<open>The local constant \<^verbatim>\<open>scanGraphUrl\<close> of \<^verbatim>\<open>getScanGraphResults\<close>.\<close>

definition scanGraphUrl :: "string option \<Rightarrow> bool \<Rightarrow> string" where
  "scanGraphUrl scanId includeVulnerabilities =
     scanGraphEndpoint @ ''/'' @ template_string scanId @ ''?include_licenses=true''
       @ ''&include_vulnerabilities='' @ template_bool includeVulnerabilities"

definition getScanGraphResults ::
  "string option \<Rightarrow> (nat \<Rightarrow> 'e option) \<Rightarrow> bool \<Rightarrow> nat \<Rightarrow> (nat \<Rightarrow> 'v outcome) \<Rightarrow> 'q event list
     \<Rightarrow> ('e thrown + 'v IGraphResponse option) \<times> 'q event list" where
  "getScanGraphResults scanId checkCanceled includeVulnerabilities sleepIntervalMilliseconds
       http tr =
     getScanGraphResults_loop (scanGraphUrl scanId includeVulnerabilities) checkCanceled http
       sleepIntervalMilliseconds 0 tr"

subsection \<open>Submitting and waiting\<close>

text \<open>The local constants \<^verbatim>\<open>projectProvided\<close> and \<^verbatim>\<open>requestParams\<close> of \<^verbatim>\<open>graph\<close>.\<close>

definition projectProvided :: "string option \<Rightarrow> bool" where
  "projectProvided projectKey = (case projectKey of None \<Rightarrow> False | Some k \<Rightarrow> length k > 0)"

definition submitRequest :: "string option \<Rightarrow> 'q \<Rightarrow> 'q IRequestParams" where
  "submitRequest projectKey request =
     \<lparr>url = scanGraphEndpoint
              @ (if projectProvided projectKey
                 then ''?project='' @ template_string projectKey else []),
      httpMethod = POST, data = Some request, validateStatus = None\<rparr>"

text \<open>The parameter \<^verbatim>\<open>sleepIntervalMilliseconds\<close> of \<^verbatim>\<open>graph\<close>, with its default value.\<close>

definition interval :: "nat option \<Rightarrow> nat" where
  "interval sleepIntervalMilliseconds =
     (case sleepIntervalMilliseconds of
        None \<Rightarrow> SLEEP_INTERVAL_MILLISECONDS
      | Some m \<Rightarrow> m)"

text \<open>
  \<^verbatim>\<open>graph\<close>. The request is \<open>None\<close> when \<^verbatim>\<open>!request\<close> holds (\<^verbatim>\<open>undefined\<close> or
  \<^verbatim>\<open>null\<close>) and \<open>Some q\<close> for an object \<open>q\<close>, the interval is \<open>None\<close> when the caller
  leaves it to the default. \<open>checkCanceled 0\<close> is the call before the POST, so that
  the loop's call of iteration \<open>i\<close> is \<open>checkCanceled (Suc i)\<close>; \<open>post\<close> is how the POST
  settles: a rejection is rethrown by the await, a response gives the scan id. The
  \<^verbatim>\<open>finally\<close> block runs after the \<^verbatim>\<open>try\<close> block has produced its outcome, whatever
  it is.
\<close>

definition graph ::
  "'q option \<Rightarrow> (nat \<Rightarrow> 'e option) \<Rightarrow> string option \<Rightarrow> nat option \<Rightarrow> 'v settled
     \<Rightarrow> (nat \<Rightarrow> 'v outcome) \<Rightarrow> ('e thrown + 'v IGraphResponse option) \<times> 'q event list" where
  "graph request checkCanceled projectKey sleepIntervalMilliseconds post http =
     (let ms = interval sleepIntervalMilliseconds;
          (res, tr) =
            (case request of
               None \<Rightarrow> (Inr (Some emptyResponse), [])
             | Some q \<Rightarrow>
                 (case checkCanceled 0 of
                    Some e \<Rightarrow> (Inl (Raised e), [CheckCanceled])
                  | None \<Rightarrow>
                      (case post of
                         Rejected rsn \<Rightarrow>
                           (Inl (Rejection rsn),
                            [CheckCanceled, Request (submitRequest projectKey q)])
                       | Resolved response \<Rightarrow>
                           getScanGraphResults (scan_id response)
                             (\<lambda>i. checkCanceled (Suc i)) (\<not> projectProvided projectKey) ms http
                             [CheckCanceled, Request (submitRequest projectKey q)])))
      in (res, tr @ [SetPercentage 100]))"

section \<open>Vocabulary for the properties\<close>

text \<open>
  An attempt is in progress when the client resolved the GET after passing 202 to the
  callback: the only outcome after which the loop goes on.
\<close>

definition in_progress :: "'v outcome \<Rightarrow> bool" where
  "in_progress out =
     (case settled out of Resolved r \<Rightarrow> validated out = Some 202 | Rejected rsn \<Rightarrow> False)"

text \<open>
  The events of an iteration that is in progress: the check, the GET, the progress
  update if there is one, the suspension.
\<close>

definition progress_events :: "'v outcome \<Rightarrow> 'q event list" where
  "progress_events out =
     (case settled out of
        Resolved r \<Rightarrow>
          (case progress_percentage r of
             None \<Rightarrow> []
           | Some p \<Rightarrow> if p \<noteq> 0 then [SetPercentage p] else [])
      | Rejected rsn \<Rightarrow> [])"

definition iteration_events :: "string \<Rightarrow> nat \<Rightarrow> 'v outcome \<Rightarrow> 'q event list" where
  "iteration_events u ms out =
     [CheckCanceled, Request (pollRequest u)] @ progress_events out @ [Delay ms]"

definition iterations :: "string \<Rightarrow> nat \<Rightarrow> (nat \<Rightarrow> 'v outcome) \<Rightarrow> nat \<Rightarrow> nat \<Rightarrow> 'q event list" where
  "iterations u ms http i k = concat (map (\<lambda>j. iteration_events u ms (http j)) [i..<k])"

text \<open>The GET requests and the suspensions of a trace.\<close>

fun is_poll :: "'q event \<Rightarrow> bool" where
  "is_poll (Request r) = (httpMethod r = GET)"
| "is_poll ev = False"

fun is_delay :: "'q event \<Rightarrow> bool" where
  "is_delay (Delay ms) = True"
| "is_delay ev = False"

definition polls :: "'q event list \<Rightarrow> 'q event list" where
  "polls tr = filter is_poll tr"

definition sleeps :: "'q event list \<Rightarrow> 'q event list" where
  "sleeps tr = filter is_delay tr"

text \<open>The events the loop can add to a trace.\<close>

definition poll_events :: "string \<Rightarrow> nat \<Rightarrow> 'q event list \<Rightarrow> bool" where
  "poll_events u ms evs =
     (\<forall>ev \<in> set evs. ev = CheckCanceled \<or> ev = Request (pollRequest u) \<or> ev = Delay ms
        \<or> (\<exists>p. p \<noteq> 0 \<and> ev = SetPercentage p))"

subsection \<open>Sample answers of the collaborators\<close>

text \<open>
  A 202 answer with a given progress field, a 200 answer with a result, and a
  cancellation callback that never throws.
\<close>

definition sample_in_progress :: "nat option \<Rightarrow> string outcome" where
  "sample_in_progress p =
     \<lparr>validated = Some 202,
      settled = Resolved \<lparr>scan_id = Some ''abc'', progress_percentage = p, other_fields = []\<rparr>\<rparr>"

definition sample_result :: "string IGraphResponse" where
  "sample_result =
     \<lparr>scan_id = Some ''abc'', progress_percentage = None,
      other_fields = [(''violations'', ''[]'')]\<rparr>"

definition sample_complete :: "string outcome" where
  "sample_complete = \<lparr>validated = Some 200, settled = Resolved sample_result\<rparr>"

definition never_canceled :: "nat \<Rightarrow> unit option" where
  "never_canceled i = None"


text \<open>A rejection with a status and a message, and one with no reason at all.\<close>

definition sample_rejected :: "nat option \<Rightarrow> string outcome" where
  "sample_rejected status =
     \<lparr>validated = status, settled = Rejected (Reason status (Some ''boom''))\<rparr>"

definition sample_rejected_null :: "string outcome" where
  "sample_rejected_null = \<lparr>validated = None, settled = Rejected NullReason\<rparr>"

text \<open>
  The answer to a POST, with the scan id \<^verbatim>\<open>abc\<close>, and the request \<^verbatim>\<open>{}\<close>, an object
  with no field, for a request type of fields and values.
\<close>

definition sample_submitted :: "string settled" where
  "sample_submitted =
     Resolved \<lparr>scan_id = Some ''abc'', progress_percentage = None, other_fields = []\<rparr>"

definition empty_request :: "(string \<times> string) list" where
  "empty_request = []"

section \<open>The loop, one iteration at a time\<close>

lemma loop_exhausted:
  "\<not> i < MAX_ATTEMPTS \<Longrightarrow>
   getScanGraphResults_loop u c h ms i tr =
     (Inl (Error ''Xray get scan graph exceeded the timeout.''), tr)"
  by (subst getScanGraphResults_loop.simps) simp

lemma loop_canceled:
  "i < MAX_ATTEMPTS \<Longrightarrow> c i = Some e \<Longrightarrow>
   getScanGraphResults_loop u c h ms i tr = (Inl (Raised e), tr @ [CheckCanceled])"
  by (subst getScanGraphResults_loop.simps) simp

lemma loop_poll_failed:
  "i < MAX_ATTEMPTS \<Longrightarrow> c i = None \<Longrightarrow> doPoll (h i) = Inl property \<Longrightarrow>
   getScanGraphResults_loop u c h ms i tr =
     (Inl (TypeError property), tr @ [CheckCanceled, Request (pollRequest u)])"
  by (subst getScanGraphResults_loop.simps) simp

lemma loop_200:
  "i < MAX_ATTEMPTS \<Longrightarrow> c i = None \<Longrightarrow> doPoll (h i) = Inr (Some 200, msg, resp) \<Longrightarrow>
   getScanGraphResults_loop u c h ms i tr =
     (Inr resp, tr @ [CheckCanceled, Request (pollRequest u)])"
  by (subst getScanGraphResults_loop.simps) (simp add: Let_def)

lemma loop_202_undefined:
  "i < MAX_ATTEMPTS \<Longrightarrow> c i = None \<Longrightarrow> doPoll (h i) = Inr (Some 202, msg, None) \<Longrightarrow>
   getScanGraphResults_loop u c h ms i tr =
     (Inl (TypeError ''progress_percentage''), tr @ [CheckCanceled, Request (pollRequest u)])"
  by (subst getScanGraphResults_loop.simps) (simp add: Let_def)

lemma loop_unexpected:
  "i < MAX_ATTEMPTS \<Longrightarrow> c i = None \<Longrightarrow> doPoll (h i) = Inr (st, msg, resp) \<Longrightarrow>
   st \<noteq> Some 200 \<Longrightarrow> st \<noteq> Some 202 \<Longrightarrow>
   getScanGraphResults_loop u c h ms i tr =
     (Inl (Error (if truthy st
                  then ''Received unexpected status '' @ [CHR 0x27] @ template_number st
                         @ [CHR 0x27] @ '' from Xray: '' @ template_string msg
                  else ''Received response from Xray: '' @ template_string msg)),
      tr @ [CheckCanceled, Request (pollRequest u)])"
  by (subst getScanGraphResults_loop.simps) simp

lemma doPoll_in_progress:
  "in_progress out \<Longrightarrow> \<exists>r. settled out = Resolved r \<and> doPoll out = Inr (Some 202, None, Some r)"
  by (auto simp: in_progress_def doPoll_def split: settled.splits)

lemma loop_in_progress:
  assumes "i < MAX_ATTEMPTS" "c i = None" "in_progress (h i)"
  shows "getScanGraphResults_loop u c h ms i tr =
         getScanGraphResults_loop u c h ms (Suc i) (tr @ iteration_events u ms (h i))"
proof -
  from doPoll_in_progress [OF assms(3)] obtain r where
    r: "settled (h i) = Resolved r" "doPoll (h i) = Inr (Some 202, None, Some r)"
    by blast
  show ?thesis
    using assms(1,2) r
    by (subst getScanGraphResults_loop.simps)
       (simp add: iteration_events_def progress_events_def Let_def split: option.splits)
qed

lemma iterations_same [simp]: "iterations u ms h i i = []"
  by (simp add: iterations_def)

lemma iterations_Suc:
  "i \<le> k \<Longrightarrow> iterations u ms h i (Suc k) = iterations u ms h i k @ iteration_events u ms (h k)"
  by (simp add: iterations_def)

lemma loop_iterations:
  assumes "i \<le> k" "k \<le> MAX_ATTEMPTS"
      and "\<forall>j. i \<le> j \<and> j < k \<longrightarrow> c j = None \<and> in_progress (h j)"
  shows "getScanGraphResults_loop u c h ms i tr =
         getScanGraphResults_loop u c h ms k (tr @ iterations u ms h i k)"
  using assms
proof (induction k)
  case 0
  then show ?case by simp
next
  case (Suc k)
  show ?case
  proof (cases "i = Suc k")
    case True
    then show ?thesis by simp
  next
    case False
    with Suc.prems have ik: "i \<le> k" and kM: "k < MAX_ATTEMPTS" by simp_all
    have "getScanGraphResults_loop u c h ms i tr =
          getScanGraphResults_loop u c h ms k (tr @ iterations u ms h i k)"
      using Suc.IH ik kM Suc.prems(3) by simp
    also have "\<dots> = getScanGraphResults_loop u c h ms (Suc k)
                      ((tr @ iterations u ms h i k) @ iteration_events u ms (h k))"
    proof (rule loop_in_progress)
      show "k < MAX_ATTEMPTS" by (rule kM)
      show "c k = None" using ik Suc.prems(3) by simp
      show "in_progress (h k)" using ik Suc.prems(3) by simp
    qed
    finally show ?thesis
      using ik by (simp add: iterations_Suc)
  qed
qed

lemma polls_Nil [simp]: "polls [] = []"
  by (simp add: polls_def)

lemma sleeps_Nil [simp]: "sleeps [] = []"
  by (simp add: sleeps_def)

lemma polls_iteration [simp]: "length (polls (iteration_events u ms out)) = 1"
  by (simp add: polls_def iteration_events_def progress_events_def pollRequest_def
           split: settled.splits option.splits)

lemma sleeps_iteration [simp]: "length (sleeps (iteration_events u ms out)) = 1"
  by (simp add: sleeps_def iteration_events_def progress_events_def
           split: settled.splits option.splits)

lemma polls_append [simp]: "polls (xs @ ys) = polls xs @ polls ys"
  by (simp add: polls_def)

lemma sleeps_append [simp]: "sleeps (xs @ ys) = sleeps xs @ sleeps ys"
  by (simp add: sleeps_def)

lemma polls_iterations: "i \<le> k \<Longrightarrow> length (polls (iterations u ms h i k)) = k - i"
  by (induction k) (auto simp: iterations_Suc le_Suc_eq)

lemma sleeps_iterations: "i \<le> k \<Longrightarrow> length (sleeps (iterations u ms h i k)) = k - i"
  by (induction k) (auto simp: iterations_Suc le_Suc_eq)

lemma in_progress_iff:
  "in_progress out \<longleftrightarrow> (\<exists>msg r. doPoll out = Inr (Some 202, msg, Some r))"
  by (auto simp: in_progress_def doPoll_def split: settled.splits reason.splits)

lemma poll_events_iteration: "poll_events u ms (iteration_events u ms out)"
  by (auto simp: poll_events_def iteration_events_def progress_events_def
           split: settled.splits option.splits if_splits)

lemma poll_events_append:
  "poll_events u ms xs \<Longrightarrow> poll_events u ms ys \<Longrightarrow> poll_events u ms (xs @ ys)"
  by (auto simp: poll_events_def)

lemma loop_trace:
  "\<exists>evs. snd (getScanGraphResults_loop u c h ms i tr) = tr @ evs \<and> poll_events u ms evs"
proof (induction "MAX_ATTEMPTS - i" arbitrary: i tr)
  case 0
  then have "\<not> i < MAX_ATTEMPTS" by simp
  then show ?case by (simp add: loop_exhausted poll_events_def)
next
  case (Suc n)
  then have iM: "i < MAX_ATTEMPTS" by simp
  show ?case
  proof (cases "c i")
    case (Some e)
    with iM show ?thesis by (simp add: loop_canceled poll_events_def)
  next
    case None
    show ?thesis
    proof (cases "in_progress (h i)")
      case True
      from Suc.hyps(2) have "n = MAX_ATTEMPTS - Suc i" by simp
      from Suc.hyps(1) [OF this, of "tr @ iteration_events u ms (h i)"]
      obtain evs where
        evs: "snd (getScanGraphResults_loop u c h ms (Suc i) (tr @ iteration_events u ms (h i)))
                = (tr @ iteration_events u ms (h i)) @ evs"
          "poll_events u ms evs"
        by blast
      have "snd (getScanGraphResults_loop u c h ms i tr) = tr @ (iteration_events u ms (h i) @ evs)"
        using evs(1) by (simp add: loop_in_progress [where c = c and h = h, OF iM None True])
      moreover have "poll_events u ms (iteration_events u ms (h i) @ evs)"
        by (rule poll_events_append [OF poll_events_iteration evs(2)])
      ultimately show ?thesis by blast
    next
      case False
      have stop: "poll_events u ms [CheckCanceled, Request (pollRequest u)]"
        by (simp add: poll_events_def)
      have "snd (getScanGraphResults_loop u c h ms i tr) = tr @ [CheckCanceled, Request (pollRequest u)]"
      proof (cases "doPoll (h i)")
        case (Inl p)
        then show ?thesis by (simp add: loop_poll_failed [where c = c and h = h, OF iM None])
      next
        case (Inr x)
        then obtain st msg resp where x: "doPoll (h i) = Inr (st, msg, resp)"
          by (cases x) auto
        show ?thesis
        proof (cases "st = Some 200")
          case True
          with x show ?thesis by (simp add: loop_200 [where c = c and h = h, OF iM None])
        next
          case n200: False
          show ?thesis
          proof (cases "st = Some 202")
            case True
            with x False have "resp = None"
              by (cases resp) (auto simp: in_progress_iff)
            with x True show ?thesis by (simp add: loop_202_undefined [where c = c and h = h, OF iM None])
          next
            case n202: False
            show ?thesis by (simp add: loop_unexpected [where c = c and h = h, OF iM None x n200 n202])
          qed
        qed
      qed
      with stop show ?thesis by blast
    qed
  qed
qed

lemma loop_reaches:
  assumes "k \<le> MAX_ATTEMPTS" and "\<forall>j<k. checkCanceled j = None \<and> in_progress (http j)"
  shows "getScanGraphResults scanId checkCanceled iv ms http tr =
         getScanGraphResults_loop (scanGraphUrl scanId iv) checkCanceled http ms k
           (tr @ iterations (scanGraphUrl scanId iv) ms http 0 k)"
  unfolding getScanGraphResults_def
  by (rule loop_iterations) (use assms in auto)


lemma polls_before:
  "length (polls (iterations u ms h 0 k @ [CheckCanceled])) = k"
  by (simp add: polls_iterations) (simp add: polls_def)

lemma sleeps_before:
  "length (sleeps (iterations u ms h 0 k @ [CheckCanceled])) = k"
  by (simp add: sleeps_iterations) (simp add: sleeps_def)


section \<open>Properties of the polling loop\<close>

text \<open>
  In the statements below the attempts are counted from 0, as the loop counter is:
  attempt \<open>k\<close> is the \<open>(k+1)\<close>-th GET. The trace before an event is \<open>pre\<close>, and
  \<open>length (polls pre)\<close> is the number of GET requests sent before it.
\<close>

text \<open>
  C1 (amended). When the attempts before attempt \<open>k\<close> were all answered with 202 and the
  status the loop holds after the GET of attempt \<open>k\<close> is 200, the call returns the
  response variable of attempt \<open>k\<close> as it is, and the GET of attempt \<open>k\<close> is the last
  event of the run: no suspension and no request follow. The response variable is the
  response the client resolved with, unchanged; it is \<^verbatim>\<open>undefined\<close> when the client
  rejected the GET.
\<close>

theorem poll_returns_first_200:
  assumes "k < MAX_ATTEMPTS"
      and "\<forall>j\<le>k. checkCanceled j = None"
      and "\<forall>j<k. in_progress (http j)"
      and "doPoll (http k) = Inr (Some 200, msg, response)"
  shows "\<exists>pre. getScanGraphResults scanId checkCanceled iv ms http [] =
                 (Inr response, pre @ [Request (pollRequest (scanGraphUrl scanId iv))])
               \<and> length (polls pre) = k \<and> length (sleeps pre) = k
               \<and> (case settled (http k) of
                    Resolved r \<Rightarrow> response = Some r
                  | Rejected rsn \<Rightarrow> response = None)"
    (is "\<exists>pre. ?run = _ \<and> _")
proof -
  let ?u = "scanGraphUrl scanId iv"
  let ?its = "iterations ?u ms http 0 k"
  have reach: "?run = getScanGraphResults_loop ?u checkCanceled http ms k ([] @ ?its)"
    by (rule loop_reaches) (use assms in auto)
  have "getScanGraphResults_loop ?u checkCanceled http ms k ([] @ ?its) =
        (Inr response, ([] @ ?its) @ [CheckCanceled, Request (pollRequest ?u)])"
    by (rule loop_200 [where c = checkCanceled and h = http, OF assms(1) _ assms(4)])
       (use assms(2) in simp)
  with reach have "?run = (Inr response, (?its @ [CheckCanceled]) @ [Request (pollRequest ?u)])"
    by simp
  moreover have "length (polls (?its @ [CheckCanceled])) = k"
    by (rule polls_before)
  moreover have "length (sleeps (?its @ [CheckCanceled])) = k"
    by (rule sleeps_before)
  moreover have "case settled (http k) of
                    Resolved r \<Rightarrow> response = Some r
                  | Rejected rsn \<Rightarrow> response = None"
    using assms(4) by (auto simp: doPoll_def split: settled.splits reason.splits)
  ultimately show ?thesis by blast
qed

text \<open>A run with two 202 answers and then a 200 answer.\<close>

theorem poll_returns_first_200_witness:
  "\<exists>pre. getScanGraphResults (Some ''abc'') never_canceled True 5000
            (\<lambda>i. if i < 2 then sample_in_progress (Some 40) else sample_complete) [] =
            (Inr (Some sample_result),
             pre @ [Request (pollRequest (scanGraphUrl (Some ''abc'') True)) :: unit event])
          \<and> length (polls pre) = 2 \<and> length (sleeps pre) = 2"
  using poll_returns_first_200 [of 2 never_canceled
      "\<lambda>i. if i < 2 then sample_in_progress (Some 40) else sample_complete" None
      "Some sample_result" "Some ''abc''" True 5000]
  by (simp add: MAX_ATTEMPTS_def never_canceled_def in_progress_def sample_in_progress_def
        sample_complete_def doPoll_def)

text \<open>
  The claim as first stated fails when the attempt whose status is 200 is a rejected
  one: after a 202 answer, a rejection whose reason reports 200 ends the run with
  \<^verbatim>\<open>undefined\<close> as its result, not with a payload.
\<close>

theorem rejected_200_after_202_counterexample:
  "getScanGraphResults (Some ''abc'') never_canceled True 5000
     (\<lambda>i. if i < 1 then sample_in_progress (Some 40) else sample_rejected (Some 200))
     ([] :: unit event list) =
     (Inr None,
      [CheckCanceled, Request (pollRequest (scanGraphUrl (Some ''abc'') True)),
       SetPercentage 40, Delay 5000,
       CheckCanceled, Request (pollRequest (scanGraphUrl (Some ''abc'') True))])"
proof -
  let ?h = "\<lambda>i::nat. if i < 1 then sample_in_progress (Some 40) else sample_rejected (Some 200)"
  let ?u = "scanGraphUrl (Some ''abc'') True"
  have first: "in_progress (?h 0)"
    by (simp add: in_progress_def sample_in_progress_def)
  have second: "doPoll (?h 1) = Inr (Some 200, Some ''boom'', None)"
    by (simp add: doPoll_def sample_rejected_def)
  have "getScanGraphResults_loop ?u never_canceled ?h 5000 0 ([] :: unit event list) =
        getScanGraphResults_loop ?u never_canceled ?h 5000 (Suc 0)
          ([] @ iteration_events ?u 5000 (?h 0))"
    by (rule loop_in_progress [where c = never_canceled and h = ?h, OF _ _ first])
       (simp_all add: MAX_ATTEMPTS_def never_canceled_def)
  also have "\<dots> = (Inr None,
        ([] @ iteration_events ?u 5000 (?h 0)) @ [CheckCanceled, Request (pollRequest ?u)])"
    using loop_200 [of "Suc 0" never_canceled ?h "Some ''boom''" None ?u 5000] second
    by (simp add: MAX_ATTEMPTS_def never_canceled_def)
  finally show ?thesis
    by (simp add: getScanGraphResults_def iteration_events_def progress_events_def
          sample_in_progress_def)
qed







text \<open>
  C3 (amended). When attempt \<open>k\<close> is reached and the status the loop holds after the GET
  is neither 200 nor 202 (the rejection reason, if any, being an object), the call fails
  at once, with an \<^verbatim>\<open>Error\<close>: its message names the status and carries the message of the
  rejection when the status is a number other than zero; it carries the message alone
  when there is no status or the status is zero. The GET of attempt \<open>k\<close> is the last
  event of the run.
\<close>

theorem poll_fails_on_other_status:
  assumes "k < MAX_ATTEMPTS"
      and "\<forall>j\<le>k. checkCanceled j = None"
      and "\<forall>j<k. in_progress (http j)"
      and "doPoll (http k) = Inr (st, msg, resp)"
      and "st \<noteq> Some 200" and "st \<noteq> Some 202"
  shows "\<exists>pre. getScanGraphResults scanId checkCanceled iv ms http [] =
                 (Inl (Error
                    (case st of
                       None \<Rightarrow> ''Received response from Xray: '' @ template_string msg
                     | Some s \<Rightarrow>
                         if s \<noteq> 0
                         then ''Received unexpected status '' @ [CHR 0x27] @ string_of_nat s
                                @ [CHR 0x27] @ '' from Xray: '' @ template_string msg
                         else ''Received response from Xray: '' @ template_string msg)),
                  pre @ [Request (pollRequest (scanGraphUrl scanId iv))])
               \<and> length (polls pre) = k \<and> length (sleeps pre) = k"
    (is "\<exists>pre. ?run = (Inl (Error ?text), _) \<and> _")
proof -
  let ?u = "scanGraphUrl scanId iv"
  let ?its = "iterations ?u ms http 0 k"
  have reach: "?run = getScanGraphResults_loop ?u checkCanceled http ms k ([] @ ?its)"
    by (rule loop_reaches) (use assms in auto)
  have message: "(if truthy st
               then ''Received unexpected status '' @ [CHR 0x27] @ template_number st
                      @ [CHR 0x27] @ '' from Xray: '' @ template_string msg
               else ''Received response from Xray: '' @ template_string msg) = ?text"
    by (simp add: truthy_def template_number_def split: option.splits)
  have "checkCanceled k = None"
    using assms(2) by simp
  from loop_unexpected [where c = checkCanceled and h = http, OF assms(1) this assms(4,5,6)]
  have "getScanGraphResults_loop ?u checkCanceled http ms k ([] @ ?its) =
        (Inl (Error ?text), ([] @ ?its) @ [CheckCanceled, Request (pollRequest ?u)])"
    unfolding message .
  with reach have "?run = (Inl (Error ?text), (?its @ [CheckCanceled]) @ [Request (pollRequest ?u)])"
    by simp
  moreover have "length (polls (?its @ [CheckCanceled])) = k"
    by (rule polls_before)
  moreover have "length (sleeps (?its @ [CheckCanceled])) = k"
    by (rule sleeps_before)
  ultimately show ?thesis by blast
qed

text \<open>A run with two 202 answers and then a rejection with status 500.\<close>

theorem poll_fails_on_other_status_witness:
  "\<exists>pre. getScanGraphResults (Some ''abc'') never_canceled True 5000
            (\<lambda>i. if i < 2 then sample_in_progress (Some 40) else sample_rejected (Some 500)) [] =
            (Inl (Error (''Received unexpected status '' @ [CHR 0x27] @ ''500'' @ [CHR 0x27]
                          @ '' from Xray: boom'')),
             pre @ [Request (pollRequest (scanGraphUrl (Some ''abc'') True)) :: unit event])
          \<and> length (polls pre) = 2 \<and> length (sleeps pre) = 2"
proof -
  have digits: "string_of_nat 500 = ''500''"
    by code_simp
  show ?thesis
    using poll_fails_on_other_status [of 2 never_canceled
      "\<lambda>i. if i < 2 then sample_in_progress (Some 40) else sample_rejected (Some 500)"
      "Some 500" "Some ''boom''" None "Some ''abc''" True 5000]
    by (simp add: MAX_ATTEMPTS_def never_canceled_def in_progress_def sample_in_progress_def
          sample_rejected_def doPoll_def template_string_def digits)
qed

text \<open>
  The claim as first stated fails on two inputs. A rejection with status 0 gives the error
  without the status, as if there were none; a rejection whose reason is \<^verbatim>\<open>undefined\<close>
  gives the \<^verbatim>\<open>TypeError\<close> of reading \<^verbatim>\<open>reason.response\<close>, which carries no message.
\<close>

theorem status_zero_counterexample:
  "getScanGraphResults (Some ''abc'') never_canceled True 5000
     (\<lambda>i. sample_rejected (Some 0)) ([] :: unit event list) =
     (Inl (Error ''Received response from Xray: boom''),
      [CheckCanceled, Request (pollRequest (scanGraphUrl (Some ''abc'') True))])
   \<and> getScanGraphResults (Some ''abc'') never_canceled True 5000
     (\<lambda>i. sample_rejected_null) ([] :: unit event list) =
     (Inl (TypeError ''response''),
      [CheckCanceled, Request (pollRequest (scanGraphUrl (Some ''abc'') True))])"
proof -
  have zero: "doPoll (sample_rejected (Some 0)) = Inr (Some 0, Some ''boom'', None)"
    by (simp add: doPoll_def sample_rejected_def)
  have null: "doPoll sample_rejected_null = Inl ''response''"
    by (simp add: doPoll_def sample_rejected_null_def)
  show ?thesis
    using loop_unexpected [of 0 never_canceled "\<lambda>i. sample_rejected (Some 0)"
        "Some 0" "Some ''boom''" None "scanGraphUrl (Some ''abc'') True" 5000 "[]", OF _ _ zero]
      loop_poll_failed [of 0 never_canceled "\<lambda>i. sample_rejected_null" "''response''"
        "scanGraphUrl (Some ''abc'') True" 5000 "[]", OF _ _ null]
    by (simp add: getScanGraphResults_def MAX_ATTEMPTS_def never_canceled_def truthy_def
          template_string_def)
qed

text \<open>
  C4 (amended). When attempt \<open>k\<close> is reached and answered with 202, the events between
  its GET and the suspension of that iteration are: one call \<open>SetPercentage p\<close> when the
  response has a \<^verbatim>\<open>progress_percentage\<close> \<open>p\<close> other than zero; nothing when the field is
  missing or zero.
\<close>

theorem progress_forwarded_before_sleep:
  assumes "k < MAX_ATTEMPTS"
      and "\<forall>j\<le>k. checkCanceled j = None"
      and "\<forall>j<k. in_progress (http j)"
      and "settled (http k) = Resolved r"
      and "validated (http k) = Some 202"
  shows "\<exists>pre post. snd (getScanGraphResults scanId checkCanceled iv ms http []) =
                 pre @ [Request (pollRequest (scanGraphUrl scanId iv))]
                     @ (case progress_percentage r of
                          None \<Rightarrow> []
                        | Some p \<Rightarrow> if p \<noteq> 0 then [SetPercentage p] else [])
                     @ [Delay ms] @ post
               \<and> length (polls pre) = k \<and> length (sleeps pre) = k"
    (is "\<exists>pre post. snd ?run = _ @ _ @ ?mid @ _ @ _ \<and> _")
proof -
  let ?u = "scanGraphUrl scanId iv"
  let ?its = "iterations ?u ms http 0 k"
  have reach: "?run = getScanGraphResults_loop ?u checkCanceled http ms k ([] @ ?its)"
    by (rule loop_reaches) (use assms in auto)
  have now: "in_progress (http k)" "checkCanceled k = None"
    using assms(2,4,5) by (simp_all add: in_progress_def)
  have mid: "progress_events (http k) = ?mid"
    using assms(4) by (simp add: progress_events_def)
  have "getScanGraphResults_loop ?u checkCanceled http ms k ([] @ ?its) =
        getScanGraphResults_loop ?u checkCanceled http ms (Suc k)
          (([] @ ?its) @ iteration_events ?u ms (http k))"
    by (rule loop_in_progress [where c = checkCanceled and h = http, OF assms(1) now(2,1)])
  with reach have next_it: "?run = getScanGraphResults_loop ?u checkCanceled http ms (Suc k)
          (?its @ iteration_events ?u ms (http k))"
    by simp
  obtain post where "snd ?run = (?its @ iteration_events ?u ms (http k)) @ post"
    using loop_trace [of ?u checkCanceled http ms "Suc k" "?its @ iteration_events ?u ms (http k)"]
    unfolding next_it by blast
  then have "snd ?run = (?its @ [CheckCanceled]) @ [Request (pollRequest ?u)] @ ?mid
                          @ [Delay ms] @ post"
    by (simp add: iteration_events_def mid)
  moreover have "length (polls (?its @ [CheckCanceled])) = k"
    by (rule polls_before)
  moreover have "length (sleeps (?its @ [CheckCanceled])) = k"
    by (rule sleeps_before)
  ultimately show ?thesis by blast
qed

text \<open>The second attempt of a run with two 202 answers carrying 40 percent.\<close>

theorem progress_forwarded_before_sleep_witness:
  "\<exists>pre post. snd (getScanGraphResults (Some ''abc'') never_canceled True 5000
            (\<lambda>i. if i < 2 then sample_in_progress (Some 40) else sample_complete) []) =
            pre @ [Request (pollRequest (scanGraphUrl (Some ''abc'') True)) :: unit event]
                @ [SetPercentage 40] @ [Delay 5000] @ post
          \<and> length (polls pre) = 1 \<and> length (sleeps pre) = 1"
  using progress_forwarded_before_sleep [of 1 never_canceled
      "\<lambda>i. if i < 2 then sample_in_progress (Some 40) else sample_complete"
      "\<lparr>scan_id = Some ''abc'', progress_percentage = Some 40, other_fields = []\<rparr>"
      "Some ''abc''" True 5000]
  by (simp add: MAX_ATTEMPTS_def never_canceled_def in_progress_def sample_in_progress_def)

text \<open>
  The claim as first stated fails for a 202 answer that carries the field with the value
  0: the sink is not written, the suspension follows the GET directly.
\<close>

theorem zero_progress_counterexample:
  "getScanGraphResults (Some ''abc'') never_canceled True 5000
     (\<lambda>i. if i < 1 then sample_in_progress (Some 0) else sample_complete)
     ([] :: unit event list) =
     (Inr (Some sample_result),
      [CheckCanceled, Request (pollRequest (scanGraphUrl (Some ''abc'') True)), Delay 5000,
       CheckCanceled, Request (pollRequest (scanGraphUrl (Some ''abc'') True))])"
proof -
  let ?h = "\<lambda>i::nat. if i < 1 then sample_in_progress (Some 0) else sample_complete"
  let ?u = "scanGraphUrl (Some ''abc'') True"
  have first: "in_progress (?h 0)"
    by (simp add: in_progress_def sample_in_progress_def)
  have second: "doPoll (?h 1) = Inr (Some 200, None, Some sample_result)"
    by (simp add: doPoll_def sample_complete_def)
  have "getScanGraphResults_loop ?u never_canceled ?h 5000 0 ([] :: unit event list) =
        getScanGraphResults_loop ?u never_canceled ?h 5000 (Suc 0)
          ([] @ iteration_events ?u 5000 (?h 0))"
    by (rule loop_in_progress [where c = never_canceled and h = ?h, OF _ _ first])
       (simp_all add: MAX_ATTEMPTS_def never_canceled_def)
  also have "\<dots> = (Inr (Some sample_result),
        ([] @ iteration_events ?u 5000 (?h 0)) @ [CheckCanceled, Request (pollRequest ?u)])"
    using loop_200 [of "Suc 0" never_canceled ?h None "Some sample_result" ?u 5000] second
    by (simp add: MAX_ATTEMPTS_def never_canceled_def)
  finally show ?thesis
    by (simp add: getScanGraphResults_def iteration_events_def progress_events_def
          sample_in_progress_def)
qed





section \<open>The method \<^verbatim>\<open>graph\<close>, case by case\<close>

lemma graph_canceled_first:
  "checkCanceled 0 = Some e \<Longrightarrow>
   graph (Some q) checkCanceled projectKey ms post http =
     (Inl (Raised e), [CheckCanceled, SetPercentage 100])"
  by (simp add: graph_def)

lemma graph_post_rejected:
  "checkCanceled 0 = None \<Longrightarrow>
   graph (Some q) checkCanceled projectKey ms (Rejected rsn) http =
     (Inl (Rejection rsn), [CheckCanceled, Request (submitRequest projectKey q), SetPercentage 100])"
  by (simp add: graph_def)

lemma graph_polling:
  "checkCanceled 0 = None \<Longrightarrow>
   getScanGraphResults (scan_id response) (\<lambda>i. checkCanceled (Suc i))
     (\<not> projectProvided projectKey) (interval ms) http
     [CheckCanceled, Request (submitRequest projectKey q)] = (res, tr) \<Longrightarrow>
   graph (Some q) checkCanceled projectKey ms (Resolved response) http =
     (res, tr @ [SetPercentage 100])"
  by (simp add: graph_def)

lemma polls_submit [simp]:
  "polls [CheckCanceled, Request (submitRequest projectKey q)] = []"
  by (simp add: polls_def submitRequest_def)

lemma polls_after_submit:
  "length (polls ([CheckCanceled, Request (submitRequest projectKey q)]
                    @ iterations u ms h 0 k)) = k"
  unfolding polls_append polls_submit by (simp add: polls_iterations)

lemma graph_requests:
  assumes "Request p \<in> set (snd (graph request checkCanceled projectKey ms post http))"
  shows "(\<exists>q. p = submitRequest projectKey q)
         \<or> (\<exists>scanId. p = pollRequest (scanGraphUrl scanId (\<not> projectProvided projectKey)))"
proof (cases request)
  case None
  with assms show ?thesis by (simp add: graph_def)
next
  case (Some q)
  show ?thesis
  proof (cases "checkCanceled 0")
    case (Some e)
    with assms \<open>request = Some q\<close> show ?thesis by (simp add: graph_canceled_first)
  next
    case None
    show ?thesis
    proof (cases post)
      case (Rejected rsn)
      with assms None \<open>request = Some q\<close> show ?thesis
        by (auto simp: graph_post_rejected)
    next
      case (Resolved response)
      let ?u = "scanGraphUrl (scan_id response) (\<not> projectProvided projectKey)"
      let ?tr0 = "[CheckCanceled, Request (submitRequest projectKey q)]"
      let ?run = "getScanGraphResults (scan_id response) (\<lambda>i. checkCanceled (Suc i))
                    (\<not> projectProvided projectKey) (interval ms) http ?tr0"
      obtain evs where evs: "snd ?run = ?tr0 @ evs" "poll_events ?u (interval ms) evs"
        unfolding getScanGraphResults_def using loop_trace by blast
      have "graph request checkCanceled projectKey ms post http =
            (fst ?run, snd ?run @ [SetPercentage 100])"
        unfolding \<open>request = Some q\<close> Resolved
        by (rule graph_polling [where checkCanceled = checkCanceled, OF None]) simp
      with assms evs(1) have "Request p \<in> set ?tr0 \<or> Request p \<in> set evs"
        by auto
      then show ?thesis
      proof
        assume "Request p \<in> set ?tr0"
        then show ?thesis by auto
      next
        assume "Request p \<in> set evs"
        with evs(2) have "p = pollRequest ?u"
          by (auto simp: poll_events_def)
        then show ?thesis by blast
      qed
    qed
  qed
qed

lemma scanGraphUrl_flag:
  "sublist (''include_vulnerabilities='' @ template_bool b) (scanGraphUrl scanId b)"
  unfolding sublist_def scanGraphUrl_def
  by (rule exI [where x = "scanGraphEndpoint @ ''/'' @ template_string scanId
                             @ ''?include_licenses=true&''"], rule exI [where x = "[]"]) simp

lemma graph_first_200:
  assumes "checkCanceled 0 = None" and "checkCanceled 1 = None"
      and "doPoll (http 0) = Inr (Some 200, msg, resp)"
  shows "graph (Some q) checkCanceled projectKey ms (Resolved response) http =
           (Inr resp,
            [CheckCanceled, Request (submitRequest projectKey q), CheckCanceled,
             Request (pollRequest (scanGraphUrl (scan_id response)
                        (\<not> projectProvided projectKey))),
             SetPercentage 100])"
proof -
  let ?c = "\<lambda>i. checkCanceled (Suc i)"
  have "getScanGraphResults (scan_id response) ?c (\<not> projectProvided projectKey) (interval ms)
          http [CheckCanceled, Request (submitRequest projectKey q)] =
        (Inr resp,
         [CheckCanceled, Request (submitRequest projectKey q)]
           @ [CheckCanceled, Request (pollRequest (scanGraphUrl (scan_id response)
                                        (\<not> projectProvided projectKey)))])"
    unfolding getScanGraphResults_def
    by (rule loop_200 [where c = ?c and h = http and msg = msg])
       (use assms in \<open>simp_all add: MAX_ATTEMPTS_def\<close>)
  from graph_polling [where checkCanceled = checkCanceled, OF assms(1) this]
  show ?thesis by simp
qed

section \<open>Properties of \<^verbatim>\<open>graph\<close>\<close>

text \<open>
  C5 (amended). For an absent request (\<^verbatim>\<open>undefined\<close> or \<^verbatim>\<open>null\<close>), \<^verbatim>\<open>graph\<close> returns the
  empty object, and the only call it makes is the one that sets the progress to 100:
  no cancellation check, no POST, no GET.
\<close>

theorem absent_request_returns_empty:
  "graph None checkCanceled projectKey ms post http =
     (Inr (Some emptyResponse), [SetPercentage 100])"
  by (simp add: graph_def)

text \<open>The same, with a collaborator that would have answered.\<close>

theorem absent_request_returns_empty_witness:
  "graph (None :: (string \<times> string) list option) never_canceled (Some ''proj'') None
     sample_submitted (\<lambda>i. sample_complete) =
     (Inr (Some emptyResponse), [SetPercentage 100])"
  by (rule absent_request_returns_empty)

text \<open>
  The claim as first stated fails for an empty request: the object \<^verbatim>\<open>{}\<close> is not falsy,
  so it is posted like any other request, and the scan is polled.
\<close>

theorem empty_request_counterexample:
  "graph (Some empty_request) never_canceled None None sample_submitted (\<lambda>i. sample_complete) =
     (Inr (Some sample_result),
      [CheckCanceled,
       Request \<lparr>url = ''api/v1/scan/graph'', httpMethod = POST, data = Some [],
                validateStatus = None\<rparr>,
       CheckCanceled,
       Request (pollRequest
                  ''api/v1/scan/graph/abc?include_licenses=true&include_vulnerabilities=true''),
       SetPercentage 100])"
proof -
  have "doPoll sample_complete = Inr (Some 200, None, Some sample_result)"
    by (simp add: doPoll_def sample_complete_def)
  from graph_first_200 [where checkCanceled = never_canceled and http = "\<lambda>i. sample_complete"
      and q = empty_request and projectKey = None and ms = None
      and response = "\<lparr>scan_id = Some ''abc'', progress_percentage = None, other_fields = []\<rparr>",
      OF _ _ this]
  show ?thesis
    by (simp add: never_canceled_def sample_submitted_def submitRequest_def projectProvided_def
          scanGraphUrl_def scanGraphEndpoint_def template_string_def template_bool_def
          empty_request_def)
qed

text \<open>
  C6. Every request of a run of \<^verbatim>\<open>graph\<close> follows the project key. With a key that is
  present and not empty, the URL of the POST is the endpoint followed by
  \<^verbatim>\<open>?project=\<close> and the key, and the URL of every GET contains
  \<^verbatim>\<open>include_vulnerabilities=false\<close>. With no key or an empty key, the URL of the POST is
  the endpoint alone, and the URL of every GET contains \<^verbatim>\<open>include_vulnerabilities=true\<close>.
\<close>

theorem urls_follow_project_key:
  assumes "Request p \<in> set (snd (graph request checkCanceled projectKey ms post http))"
  shows "(\<forall>key. projectKey = Some key \<and> key \<noteq> [] \<longrightarrow>
            (httpMethod p = POST \<longrightarrow> url p = scanGraphEndpoint @ ''?project='' @ key)
          \<and> (httpMethod p = GET \<longrightarrow> sublist ''include_vulnerabilities=false'' (url p)))
       \<and> (projectKey = None \<or> projectKey = Some [] \<longrightarrow>
            (httpMethod p = POST \<longrightarrow> url p = scanGraphEndpoint)
          \<and> (httpMethod p = GET \<longrightarrow> sublist ''include_vulnerabilities=true'' (url p)))"
proof -
  from graph_requests [OF assms] show ?thesis
  proof
    assume "\<exists>q. p = submitRequest projectKey q"
    then obtain q where "p = submitRequest projectKey q" ..
    then show ?thesis
      by (auto simp: submitRequest_def projectProvided_def template_string_def)
  next
    assume "\<exists>scanId. p = pollRequest (scanGraphUrl scanId (\<not> projectProvided projectKey))"
    then obtain scanId where p: "p = pollRequest (scanGraphUrl scanId (\<not> projectProvided projectKey))" ..
    have "sublist (''include_vulnerabilities='' @ template_bool (\<not> projectProvided projectKey)) (url p)"
      unfolding p using scanGraphUrl_flag by (simp add: pollRequest_def)
    then show ?thesis
      using p by (auto simp: pollRequest_def projectProvided_def template_bool_def)
  qed
qed

text \<open>
  A run with the key \<^verbatim>\<open>proj\<close> and a run with an empty key: the POST and the GET of
  each.
\<close>

theorem urls_follow_project_key_witness:
  "Request (submitRequest (Some ''proj'') empty_request)
     \<in> set (snd (graph (Some empty_request) never_canceled (Some ''proj'') None
                   sample_submitted (\<lambda>i. sample_complete)))
   \<and> url (submitRequest (Some ''proj'') empty_request) = ''api/v1/scan/graph?project=proj''
   \<and> Request (pollRequest (scanGraphUrl (Some ''abc'') False))
     \<in> set (snd (graph (Some empty_request) never_canceled (Some ''proj'') None
                   sample_submitted (\<lambda>i. sample_complete)))
   \<and> sublist ''include_vulnerabilities=false''
       (url (pollRequest (scanGraphUrl (Some ''abc'') False)
               :: (string \<times> string) list IRequestParams))
   \<and> Request (submitRequest (Some []) empty_request)
     \<in> set (snd (graph (Some empty_request) never_canceled (Some []) None
                   sample_submitted (\<lambda>i. sample_complete)))
   \<and> url (submitRequest (Some []) empty_request) = ''api/v1/scan/graph''
   \<and> Request (pollRequest (scanGraphUrl (Some ''abc'') True))
     \<in> set (snd (graph (Some empty_request) never_canceled (Some []) None
                   sample_submitted (\<lambda>i. sample_complete)))
   \<and> sublist ''include_vulnerabilities=true''
       (url (pollRequest (scanGraphUrl (Some ''abc'') True)
               :: (string \<times> string) list IRequestParams))"
proof -
  let ?run = "graph (Some empty_request) never_canceled (Some ''proj'') None
                sample_submitted (\<lambda>i. sample_complete)"
  let ?post = "submitRequest (Some ''proj'') empty_request"
  let ?get = "pollRequest (scanGraphUrl (Some ''abc'') False)
                :: (string \<times> string) list IRequestParams"
  let ?run' = "graph (Some empty_request) never_canceled (Some []) None
                sample_submitted (\<lambda>i. sample_complete)"
  let ?post' = "submitRequest (Some []) empty_request"
  let ?get' = "pollRequest (scanGraphUrl (Some ''abc'') True)
                :: (string \<times> string) list IRequestParams"
  have complete: "doPoll sample_complete = Inr (Some 200, None, Some sample_result)"
    by (simp add: doPoll_def sample_complete_def)
  from graph_first_200 [where checkCanceled = never_canceled and http = "\<lambda>i. sample_complete"
      and q = empty_request and projectKey = "Some ''proj''" and ms = None
      and response = "\<lparr>scan_id = Some ''abc'', progress_percentage = None, other_fields = []\<rparr>",
      OF _ _ complete]
  have run: "?run = (Inr (Some sample_result),
               [CheckCanceled, Request ?post, CheckCanceled, Request ?get, SetPercentage 100])"
    by (simp add: never_canceled_def sample_submitted_def projectProvided_def)
  from graph_first_200 [where checkCanceled = never_canceled and http = "\<lambda>i. sample_complete"
      and q = empty_request and projectKey = "Some []" and ms = None
      and response = "\<lparr>scan_id = Some ''abc'', progress_percentage = None, other_fields = []\<rparr>",
      OF _ _ complete]
  have run': "?run' = (Inr (Some sample_result),
               [CheckCanceled, Request ?post', CheckCanceled, Request ?get', SetPercentage 100])"
    by (simp add: never_canceled_def sample_submitted_def projectProvided_def)
  have sent: "Request ?post \<in> set (snd ?run)" and polled: "Request ?get \<in> set (snd ?run)"
    unfolding run by simp_all
  have sent': "Request ?post' \<in> set (snd ?run')" and polled': "Request ?get' \<in> set (snd ?run')"
    unfolding run' by simp_all
  have "url ?post = ''api/v1/scan/graph?project=proj''"
    using urls_follow_project_key [OF sent]
    by (simp add: submitRequest_def scanGraphEndpoint_def)
  moreover have "sublist ''include_vulnerabilities=false'' (url ?get)"
    using urls_follow_project_key [OF polled] by (simp add: pollRequest_def)
  moreover have "url ?post' = ''api/v1/scan/graph''"
    using urls_follow_project_key [OF sent']
    by (simp add: submitRequest_def scanGraphEndpoint_def)
  moreover have "sublist ''include_vulnerabilities=true'' (url ?get')"
    using urls_follow_project_key [OF polled'] by (simp add: pollRequest_def)
  ultimately show ?thesis
    using sent polled sent' polled' by blast
qed

text \<open>
  C7. \<open>checkCanceled k\<close> is the check before poll attempt \<open>k\<close>, for \<open>k\<close> from 1 to 60 (the
  check before the POST is \<open>checkCanceled 0\<close>). When the earlier checks pass, the earlier
  attempts are answered with 202 and this check throws \<open>e\<close>, the call is rejected with
  \<open>e\<close> itself; only \<open>k - 1\<close> GET requests were sent, and after the check that threw the
  only event is the call that sets the progress to 100.
\<close>

theorem cancellation_before_attempt:
  fixes checkCanceled :: "nat \<Rightarrow> 'e option" and http :: "nat \<Rightarrow> 'v outcome" and q :: 'q
  assumes "1 \<le> k" and "k \<le> MAX_ATTEMPTS"
      and "\<forall>j<k. checkCanceled j = None"
      and "checkCanceled k = Some e"
      and "\<forall>j<k - 1. in_progress (http j)"
  shows "\<exists>pre. graph (Some q) checkCanceled projectKey ms (Resolved response) http =
                 (Inl (Raised e), pre @ [CheckCanceled, SetPercentage 100])
               \<and> length (polls pre) = k - 1"
proof -
  let ?c = "\<lambda>i. checkCanceled (Suc i)"
  let ?iv = "\<not> projectProvided projectKey"
  let ?u = "scanGraphUrl (scan_id response) ?iv"
  let ?tr0 = "[CheckCanceled, Request (submitRequest projectKey q)] :: 'q event list"
  let ?its = "iterations ?u (interval ms) http 0 (k - 1) :: 'q event list"
  have first: "checkCanceled 0 = None"
    using assms(1,3) by simp
  have reach: "getScanGraphResults (scan_id response) ?c ?iv (interval ms) http ?tr0 =
               getScanGraphResults_loop ?u ?c http (interval ms) (k - 1) (?tr0 @ ?its)"
    by (rule loop_reaches) (use assms in auto)
  have "getScanGraphResults_loop ?u ?c http (interval ms) (k - 1) (?tr0 @ ?its) =
        (Inl (Raised e), (?tr0 @ ?its) @ [CheckCanceled])"
    by (rule loop_canceled [where c = ?c]) (use assms in auto)
  with reach have "getScanGraphResults (scan_id response) ?c ?iv (interval ms) http ?tr0 =
        (Inl (Raised e), (?tr0 @ ?its) @ [CheckCanceled])"
    by simp
  from graph_polling [where checkCanceled = checkCanceled, OF first this]
  have "graph (Some q) checkCanceled projectKey ms (Resolved response) http =
        (Inl (Raised e), (?tr0 @ ?its) @ [CheckCanceled, SetPercentage 100])"
    by simp
  moreover have "length (polls (?tr0 @ ?its)) = k - 1"
    by (rule polls_after_submit)
  ultimately show ?thesis by blast
qed

text \<open>A run cancelled before its third poll attempt.\<close>

theorem cancellation_before_attempt_witness:
  "\<exists>pre. graph (Some empty_request) (\<lambda>j. if j = 3 then Some ''stop'' else None)
            (Some ''proj'') None sample_submitted (\<lambda>i. sample_in_progress (Some 40)) =
            (Inl (Raised ''stop''), pre @ [CheckCanceled, SetPercentage 100])
          \<and> length (polls pre) = 2"
  using cancellation_before_attempt [of 3 "\<lambda>j. if j = 3 then Some ''stop'' else None" "''stop''"
      "\<lambda>i. sample_in_progress (Some 40)" empty_request "Some ''proj''" None
      "\<lparr>scan_id = Some ''abc'', progress_percentage = None, other_fields = []\<rparr>"]
  by (simp add: MAX_ATTEMPTS_def in_progress_def sample_in_progress_def sample_submitted_def)

text \<open>
  C8. Whatever the request, the project key and the interval are, and whatever the
  collaborators answer (a result, an unexpected status, a rejection, 202 until the
  attempts are used up, a cancellation), the last event of a run of \<^verbatim>\<open>graph\<close> is the call
  that sets the progress to 100.
\<close>

theorem progress_completed_on_every_exit:
  "\<exists>res pre. graph request checkCanceled projectKey ms post http =
               (res, pre @ [SetPercentage 100])"
  by (simp add: graph_def Let_def split: prod.splits)

text \<open>The cancelled run again.\<close>

theorem progress_completed_on_every_exit_witness:
  "\<exists>res pre. graph (Some empty_request) (\<lambda>j. if j = 3 then Some ''stop'' else None)
                (Some ''proj'') None sample_submitted (\<lambda>i. sample_in_progress (Some 40)) =
                (res, pre @ [SetPercentage 100])"
  by (rule progress_completed_on_every_exit)


end
